theory Spec2Isabelle
  imports Complex_Main "HOL-Library.Word" "HOL-Library.Sublist" "HOL-Library.AList"
begin

section \<open>JavaScript values used by the client\<close>

text \<open>
  A JavaScript string is a sequence of UTF-16 code units; a \<open>Uint8Array\<close> is a sequence of
  bytes. \<open>js\<close> turns an ASCII literal of this theory into a JavaScript string, \<open>ascii\<close>
  into the bytes that carry it.
\<close>

type_synonym js_string = "nat list"
type_synonym byte = "8 word"

definition js :: "string \<Rightarrow> js_string" where
  "js s = map of_char s"

definition ascii :: "string \<Rightarrow> byte list" where
  "ascii s = map of_nat (js s)"

text \<open>
  The values \<open>JSON.parse\<close> produces. \<open>JNum x\<close> stands for the Number that the literal of
  value \<open>x\<close> denotes, the double nearest to \<open>x\<close>; the literal's exact value is kept, and
  the functions that read a number (\<open>truthy\<close>, \<open>ToString\<close>) round it first. An object is
  the list of its own properties in the order JavaScript enumerates them.
\<close>

datatype json =
    JNull
  | JBool bool
  | JNum rat
  | JStr js_string
  | JArr "json list"
  | JObj "(js_string \<times> json) list"

subsection \<open>Numbers\<close>

text \<open>Decimal digits of a natural number.\<close>

fun nat_text :: "nat \<Rightarrow> js_string" where
  "nat_text n = (if n < 10 then [48 + n] else nat_text (n div 10) @ [48 + n mod 10])"

text \<open>
  Rounding to a double (IEEE 754 binary64, nearest, ties to even). \<open>width b n\<close> is the
  number of digits of \<open>n\<close> in base \<open>b\<close>, \<open>scale b e\<close> is \<open>b\<close> to the power \<open>e\<close>, and
  \<open>floor_log b x\<close> is the integer part of the logarithm of a positive \<open>x\<close>.
\<close>

definition round_half_even :: "rat \<Rightarrow> int" where
  "round_half_even q =
     (let f = \<lfloor>q\<rfloor>; r = q - of_int f
      in if r < 1 / 2 then f else if 1 / 2 < r then f + 1 else if even f then f else f + 1)"

fun width :: "nat \<Rightarrow> nat \<Rightarrow> nat" where
  "width b n = (if n = 0 \<or> b < 2 then 0 else Suc (width b (n div b)))"

definition scale :: "nat \<Rightarrow> int \<Rightarrow> rat" where
  "scale b e = (if 0 \<le> e then of_nat b ^ nat e else 1 / of_nat b ^ nat (- e))"

definition floor_log :: "nat \<Rightarrow> rat \<Rightarrow> int" where
  "floor_log b x =
     (let (p, q) = quotient_of x;
          d = int (width b (nat p)) - int (width b (nat q))
      in if x < scale b d then d - 1 else d)"

text \<open>
  The double nearest to a positive \<open>x\<close>: 53 significant bits, exponents from \<open>-1022\<close>
  (below, the subnormal numbers, multiples of 2 to the \<open>-1074\<close>), \<open>None\<close> when the result
  is beyond the largest double and the Number is \<open>Infinity\<close>.
\<close>

definition nearest_double :: "rat \<Rightarrow> rat option" where
  "nearest_double x =
     (let e = max (floor_log 2 x) (- 1022);
          ulp = scale 2 (e - 52);
          d = of_int (round_half_even (x / ulp)) * ulp
      in if d < scale 2 1024 then Some d else None)"

definition to_double :: "rat \<Rightarrow> rat option" where
  "to_double x =
     (if x = 0 then Some 0
      else if x < 0 then map_option uminus (nearest_double (- x))
      else nearest_double x)"

text \<open>
  \<open>Number::toString\<close> of a positive double \<open>x\<close>: the integers \<open>s\<close> of \<open>k\<close> digits and \<open>n\<close>
  such that \<open>s\<close> times 10 to the \<open>n - k\<close> is a real that rounds to \<open>x\<close>, with \<open>k\<close> as small
  as possible (17 digits always do), and of those the one nearest to \<open>x\<close>. For a given
  \<open>k\<close> only the two multiples around \<open>x\<close> can do.
\<close>

definition digits_for :: "rat \<Rightarrow> int \<Rightarrow> nat \<Rightarrow> (nat \<times> int) option" where
  "digits_for x n k =
     (let u = scale 10 (n - int k);
          lo = nat \<lfloor>x / u\<rfloor>;
          near = (\<lambda>s. nearest_double (of_nat s * u) = Some x);
          s = (if near lo \<and> near (lo + 1) then
                 (if x - of_nat lo * u < of_nat (lo + 1) * u - x then Some lo
                  else if of_nat (lo + 1) * u - x < x - of_nat lo * u then Some (lo + 1)
                  else if even lo then Some lo else Some (lo + 1))
               else if near lo then Some lo
               else if near (lo + 1) then Some (lo + 1)
               else None)
      in case s of
           None \<Rightarrow> None
         | Some s \<Rightarrow> if s = 10 ^ k then Some (s div 10, n + 1) else Some (s, n))"

definition shortest :: "rat \<Rightarrow> nat \<times> int" where
  "shortest x =
     (case List.map_filter (digits_for x (floor_log 10 x + 1)) [1..<18] of
        r # rs \<Rightarrow> r
      | [] \<Rightarrow> (0, 0))"

text \<open>
  The digits laid out: plain notation when \<open>n\<close> is between \<open>-5\<close> and 21, otherwise with
  an exponent.
\<close>

definition number_text :: "rat \<Rightarrow> js_string" where
  "number_text x =
     (let (s, n) = shortest x; ds = nat_text s; k = int (length ds)
      in if - 5 \<le> n \<and> n \<le> 21 then
           (if k \<le> n then ds @ replicate (nat (n - k)) 48
            else if 0 < n then take (nat n) ds @ [46] @ drop (nat n) ds
            else [48, 46] @ replicate (nat (- n)) 48 @ ds)
         else
           (let e = n - 1;
                es = (if e < 0 then 45 else 43) # nat_text (nat \<bar>e\<bar>)
            in if k = 1 then ds @ [101] @ es
               else take 1 ds @ [46] @ drop 1 ds @ [101] @ es))"

text \<open>\<open>String(x)\<close> for the Number that a literal of value \<open>x\<close> denotes.\<close>

definition Number_toString :: "rat \<Rightarrow> js_string" where
  "Number_toString x =
     (case to_double x of
        None \<Rightarrow> (if x < 0 then [45] else []) @ js ''Infinity''
      | Some d \<Rightarrow>
          if d = 0 then [48]
          else if d < 0 then 45 # number_text (- d)
          else number_text d)"

subsection \<open>Truthiness and conversion to a string\<close>

text \<open>
  Truthiness (\<open>ToBoolean\<close>) of a parsed value; \<open>undefined\<close> is \<open>None\<close> and falsy. A number
  is falsy when it is zero as a double, which a literal too small for a double also is.
\<close>

fun truthy :: "json \<Rightarrow> bool" where
  "truthy JNull = False"
| "truthy (JBool b) = b"
| "truthy (JNum n) = (to_double n \<noteq> Some 0)"
| "truthy (JStr s) = (s \<noteq> [])"
| "truthy (JArr vs) = True"
| "truthy (JObj ms) = True"

text \<open>
  \<open>ToString\<close> of a parsed value, as the constructor of \<open>Error\<close> applies it to its message:
  a string is itself; an array is its elements joined by commas, \<open>null\<close> counting as the
  empty string; an object is \<open>[object Object]\<close>, unless it has an own property
  \<open>toString\<close>, which no JSON value can make callable, and the conversion throws a
  \<open>TypeError\<close> (\<open>None\<close>).
\<close>

definition join_comma :: "js_string list \<Rightarrow> js_string" where
  "join_comma ts = (case ts of [] \<Rightarrow> [] | t # ts' \<Rightarrow> foldl (\<lambda>a b. a @ [44] @ b) t ts')"

fun ToString :: "json \<Rightarrow> js_string option" where
  "ToString JNull = Some (js ''null'')"
| "ToString (JBool b) = Some (if b then js ''true'' else js ''false'')"
| "ToString (JNum x) = Some (Number_toString x)"
| "ToString (JStr s) = Some s"
| "ToString (JArr vs) =
     map_option join_comma
       (those (map (\<lambda>v. if v = JNull then Some [] else ToString v) vs))"
| "ToString (JObj ms) =
     (if map_of ms (js ''toString'') \<noteq> None then None else Some (js ''[object Object]''))"

section \<open>\<open>TextDecoder\<close>: streaming UTF-8 decoding\<close>

text \<open>
  The platform's UTF-8 decoder (WHATWG Encoding): a state machine fed one byte at a time,
  which replaces every malformed sequence by U+FFFD. With \<open>{stream: true}\<close> the state is
  kept between calls and never flushed, so the bytes of an unfinished character wait in
  the state for the next chunk.
\<close>

record utf8_decoder =
  code_point :: nat
  bytes_seen :: nat
  bytes_needed :: nat
  lower_boundary :: nat
  upper_boundary :: nat

definition utf8_initial :: utf8_decoder where
  "utf8_initial =
     \<lparr>code_point = 0, bytes_seen = 0, bytes_needed = 0,
      lower_boundary = 0x80, upper_boundary = 0xBF\<rparr>"

text \<open>
  The handler when no continuation byte is awaited. A lead byte gives its low five, four
  or three bits to the code point (\<open>b mod 0x20\<close> is \<open>b & 0x1F\<close>).
\<close>

definition utf8_lead :: "utf8_decoder \<Rightarrow> nat \<Rightarrow> utf8_decoder \<times> nat list" where
  "utf8_lead d b =
     (if b \<le> 0x7F then (d, [b])
      else if 0xC2 \<le> b \<and> b \<le> 0xDF then
        (d\<lparr>bytes_needed := 1, code_point := b mod 0x20\<rparr>, [])
      else if 0xE0 \<le> b \<and> b \<le> 0xEF then
        (d\<lparr>lower_boundary := (if b = 0xE0 then 0xA0 else lower_boundary d),
           upper_boundary := (if b = 0xED then 0x9F else upper_boundary d),
           bytes_needed := 2, code_point := b mod 0x10\<rparr>, [])
      else if 0xF0 \<le> b \<and> b \<le> 0xF4 then
        (d\<lparr>lower_boundary := (if b = 0xF0 then 0x90 else lower_boundary d),
           upper_boundary := (if b = 0xF4 then 0x8F else upper_boundary d),
           bytes_needed := 3, code_point := b mod 0x8\<rparr>, [])
      else (d, [0xFFFD]))"

text \<open>
  One byte. A byte outside the awaited range ends the unfinished character with U+FFFD and
  is then read again from the initial state. A continuation byte appends its low six bits
  (\<open>(code_point << 6) | (b & 0x3F)\<close>).
\<close>

definition utf8_handler :: "utf8_decoder \<Rightarrow> nat \<Rightarrow> utf8_decoder \<times> nat list" where
  "utf8_handler d b =
     (if bytes_needed d = 0 then utf8_lead d b
      else if b < lower_boundary d \<or> upper_boundary d < b then
        (let (d', out) = utf8_lead utf8_initial b in (d', 0xFFFD # out))
      else
        (let d1 = d\<lparr>lower_boundary := 0x80, upper_boundary := 0xBF,
                     code_point := code_point d * 0x40 + b mod 0x40,
                     bytes_seen := bytes_seen d + 1\<rparr>
         in if bytes_seen d1 \<noteq> bytes_needed d1 then (d1, [])
            else (utf8_initial, [code_point d1])))"

fun run_utf8 :: "utf8_decoder \<Rightarrow> byte list \<Rightarrow> utf8_decoder \<times> nat list" where
  "run_utf8 d [] = (d, [])"
| "run_utf8 d (b # bs) =
     (let (d1, out1) = utf8_handler d (unat b);
          (d2, out2) = run_utf8 d1 bs
      in (d2, out1 @ out2))"

text \<open>A code point as UTF-16 code units.\<close>

definition utf16 :: "nat \<Rightarrow> js_string" where
  "utf16 cp =
     (if cp < 0x10000 then [cp]
      else [0xD800 + (cp - 0x10000) div 0x400, 0xDC00 + (cp - 0x10000) mod 0x400])"

text \<open>
  Output of the decoder to a string: the first code point is dropped when it is the byte
  order mark (\<open>ignoreBOM\<close> is false by default); the flag says whether a first code point
  was seen.
\<close>

fun serialize :: "bool \<Rightarrow> nat list \<Rightarrow> bool \<times> js_string" where
  "serialize seen [] = (seen, [])"
| "serialize seen (cp # cps) =
     (if \<not> seen \<and> cp = 0xFEFF then serialize True cps
      else (let (seen', t) = serialize True cps in (seen', utf16 cp @ t)))"

record text_decoder =
  utf8 :: utf8_decoder
  bom_seen :: bool

definition new_TextDecoder :: text_decoder where
  "new_TextDecoder = \<lparr>utf8 = utf8_initial, bom_seen = False\<rparr>"

text \<open>\<open>decoder.decode(value, { stream: true })\<close>: the new state and the text produced.\<close>

definition decode :: "text_decoder \<Rightarrow> byte list \<Rightarrow> text_decoder \<times> js_string" where
  "decode td bs =
     (let (d, cps) = run_utf8 (utf8 td) bs;
          (seen, t) = serialize (bom_seen td) cps
      in (\<lparr>utf8 = d, bom_seen = seen\<rparr>, t))"

text \<open>
  Decoding a whole body at once, as \<open>response.json()\<close> does: the end of the input flushes
  the decoder, and an unfinished character becomes U+FFFD.
\<close>

definition utf8_decode :: "byte list \<Rightarrow> js_string" where
  "utf8_decode bs =
     (let (d, cps) = run_utf8 utf8_initial bs
      in snd (serialize False (cps @ (if bytes_needed d \<noteq> 0 then [0xFFFD] else []))))"

section \<open>\<open>JSON.parse\<close>\<close>

datatype token =
    LBrace | RBrace | LBracket | RBracket | Colon | Comma
  | TString js_string | TNumber rat | TTrue | TFalse | TNull

definition is_digit :: "nat \<Rightarrow> bool" where
  "is_digit c = (48 \<le> c \<and> c \<le> 57)"

definition hex_value :: "nat \<Rightarrow> nat option" where
  "hex_value c =
     (if 48 \<le> c \<and> c \<le> 57 then Some (c - 48)
      else if 97 \<le> c \<and> c \<le> 102 then Some (c - 87)
      else if 65 \<le> c \<and> c \<le> 70 then Some (c - 55)
      else None)"

text \<open>The character an escape letter stands for (after a backslash, \<open>u\<close> apart).\<close>

definition escape_char :: "nat \<Rightarrow> nat option" where
  "escape_char e =
     (if e = 34 then Some 34 else if e = 92 then Some 92 else if e = 47 then Some 47
      else if e = 98 then Some 8 else if e = 102 then Some 12 else if e = 110 then Some 10
      else if e = 114 then Some 13 else if e = 116 then Some 9 else None)"

text \<open>
  The rest of a string after its opening quote: the characters and what follows the
  closing quote. Control characters below U+0020 are not allowed unescaped.
\<close>

fun scan_string :: "js_string \<Rightarrow> (js_string \<times> js_string) option" where
  "scan_string [] = None"
| "scan_string (c # cs) =
     (if c = 34 then Some ([], cs)
      else if c < 32 then None
      else if c = 92 then
        (case cs of
           [] \<Rightarrow> None
         | e # r \<Rightarrow>
             if e = 117 then
               (case r of
                  h1 # h2 # h3 # h4 # r' \<Rightarrow>
                    (case (hex_value h1, hex_value h2, hex_value h3, hex_value h4) of
                       (Some a, Some b, Some c', Some d) \<Rightarrow>
                         (case scan_string r' of
                            None \<Rightarrow> None
                          | Some (s, rest) \<Rightarrow>
                              Some ((((a * 16 + b) * 16 + c') * 16 + d) # s, rest))
                     | _ \<Rightarrow> None)
                | _ \<Rightarrow> None)
             else
               (case escape_char e of
                  None \<Rightarrow> None
                | Some x \<Rightarrow>
                    (case scan_string r of
                       None \<Rightarrow> None
                     | Some (s, rest) \<Rightarrow> Some (x # s, rest))))
      else
        (case scan_string cs of
           None \<Rightarrow> None
         | Some (s, rest) \<Rightarrow> Some (c # s, rest)))"

definition digits_value :: "nat list \<Rightarrow> nat" where
  "digits_value ds = foldl (\<lambda>a d. 10 * a + (d - 48)) 0 ds"

text \<open>
  A number: \<open>-? (0 | [1-9][0-9]*) (. [0-9]+)? ([eE] [+-]? [0-9]+)?\<close>, and what follows it.
\<close>

definition scan_int :: "js_string \<Rightarrow> (nat list \<times> js_string) option" where
  "scan_int cs =
     (case cs of
        [] \<Rightarrow> None
      | d # r \<Rightarrow>
          if d = 48 then Some ([d], r)
          else if is_digit d then Some (takeWhile is_digit cs, dropWhile is_digit cs)
          else None)"

definition scan_frac :: "js_string \<Rightarrow> (nat list \<times> js_string) option" where
  "scan_frac cs =
     (case cs of
        [] \<Rightarrow> Some ([], cs)
      | c # r \<Rightarrow>
          if c = 46 then
            (if takeWhile is_digit r = [] then None
             else Some (takeWhile is_digit r, dropWhile is_digit r))
          else Some ([], cs))"

definition scan_exp :: "js_string \<Rightarrow> (int \<times> js_string) option" where
  "scan_exp cs =
     (case cs of
        [] \<Rightarrow> Some (0, cs)
      | c # r \<Rightarrow>
          if c = 101 \<or> c = 69 then
            (let (neg, r') = (case r of
                                [] \<Rightarrow> (False, r)
                              | s # r2 \<Rightarrow> if s = 45 then (True, r2)
                                          else if s = 43 then (False, r2) else (False, r))
             in if takeWhile is_digit r' = [] then None
                else Some ((if neg then - int (digits_value (takeWhile is_digit r'))
                            else int (digits_value (takeWhile is_digit r'))),
                           dropWhile is_digit r'))
          else Some (0, cs))"

definition decimal :: "bool \<Rightarrow> nat list \<Rightarrow> nat list \<Rightarrow> int \<Rightarrow> rat" where
  "decimal neg ip fp e =
     (let m = of_nat (digits_value (ip @ fp)) :: rat;
          x = e - int (length fp);
          v = (if 0 \<le> x then m * 10 ^ nat x else m / 10 ^ nat (- x))
      in if neg then - v else v)"

definition scan_number :: "js_string \<Rightarrow> (rat \<times> js_string) option" where
  "scan_number cs =
     (let (neg, r0) = (case cs of [] \<Rightarrow> (False, cs)
                       | c # r \<Rightarrow> if c = 45 then (True, r) else (False, cs))
      in case scan_int r0 of
           None \<Rightarrow> None
         | Some (ip, r1) \<Rightarrow>
             (case scan_frac r1 of
                None \<Rightarrow> None
              | Some (fp, r2) \<Rightarrow>
                  (case scan_exp r2 of
                     None \<Rightarrow> None
                   | Some (e, r3) \<Rightarrow> Some (decimal neg ip fp e, r3))))"


text \<open>
  The lexer. Insignificant whitespace is tab, line feed, carriage return and space.
\<close>

lemma scan_string_shorter: "scan_string cs = Some (s, r) \<Longrightarrow> length r < Suc (length cs)"
proof (induction cs arbitrary: s r rule: scan_string.induct)
  case 1
  then show ?case by simp
next
  case (2 c cs)
  then show ?case
    by (fastforce split: if_splits list.splits option.splits prod.splits)
qed

lemma dropWhile_shorter: "length (dropWhile P xs) \<le> Suc (length xs)"
  by (rule le_SucI) (rule length_dropWhile_le)

lemma scan_int_shorter: "scan_int cs = Some (ds, r) \<Longrightarrow> length r < length cs"
  by (auto simp: scan_int_def less_Suc_eq_le length_dropWhile_le split: list.splits if_splits)

lemma scan_frac_shorter: "scan_frac cs = Some (ds, r) \<Longrightarrow> length r \<le> length cs"
  by (auto simp: scan_frac_def dropWhile_shorter split: list.splits if_splits)

lemma scan_exp_shorter: "scan_exp cs = Some (e, r) \<Longrightarrow> length r \<le> length cs"
proof -
  have le2: "length (dropWhile P xs) \<le> Suc (Suc (length xs))" for P and xs :: "nat list"
    using length_dropWhile_le [of P xs] by simp
  assume "scan_exp cs = Some (e, r)"
  then show ?thesis
    by (auto simp: scan_exp_def dropWhile_shorter le2 split: list.splits if_splits prod.splits)
qed

lemma scan_number_shorter: "scan_number (c # cs) = Some (n, r) \<Longrightarrow> length r < Suc (length cs)"
  by (auto simp: scan_number_def split: list.splits if_splits prod.splits option.splits
           dest!: scan_int_shorter scan_frac_shorter scan_exp_shorter)

function lex :: "js_string \<Rightarrow> token list option" where
  "lex [] = Some []"
| "lex (c # cs) =
     (if c = 9 \<or> c = 10 \<or> c = 13 \<or> c = 32 then lex cs
      else if c = 123 then map_option ((#) LBrace) (lex cs)
      else if c = 125 then map_option ((#) RBrace) (lex cs)
      else if c = 91 then map_option ((#) LBracket) (lex cs)
      else if c = 93 then map_option ((#) RBracket) (lex cs)
      else if c = 58 then map_option ((#) Colon) (lex cs)
      else if c = 44 then map_option ((#) Comma) (lex cs)
      else if c = 34 then
        (case scan_string cs of
           None \<Rightarrow> None
         | Some (s, r) \<Rightarrow> map_option ((#) (TString s)) (lex r))
      else if c = 45 \<or> is_digit c then
        (case scan_number (c # cs) of
           None \<Rightarrow> None
         | Some (n, r) \<Rightarrow> map_option ((#) (TNumber n)) (lex r))
      else if prefix (js ''true'') (c # cs) then map_option ((#) TTrue) (lex (drop 3 cs))
      else if prefix (js ''false'') (c # cs) then map_option ((#) TFalse) (lex (drop 4 cs))
      else if prefix (js ''null'') (c # cs) then map_option ((#) TNull) (lex (drop 3 cs))
      else None)"
  by pat_completeness auto
termination
proof (relation "measure length")
  show "wf (measure length)" by simp
qed (auto dest!: scan_string_shorter scan_number_shorter)


text \<open>
  The parser reads the tokens from left to right with a stack of the arrays and objects
  that are open. An object frame holds the members read so far and the key whose value is
  awaited; a repeated key keeps its first position and takes the later value.
\<close>

datatype frame =
    InArray "json list"
  | InObject "(js_string \<times> json) list" "js_string option"

datatype expecting =
    AValue | AValueOrClose | AKeyOrClose | AKey | AColon | ACommaOrClose | Finished json

fun complete :: "json \<Rightarrow> frame list \<Rightarrow> (frame list \<times> expecting) option" where
  "complete v [] = Some ([], Finished v)"
| "complete v (InArray vs # st) = Some (InArray (vs @ [v]) # st, ACommaOrClose)"
| "complete v (InObject ms (Some k) # st) =
     Some (InObject (AList.update k v ms) None # st, ACommaOrClose)"
| "complete v (InObject ms None # st) = None"

fun start_value :: "frame list \<Rightarrow> token \<Rightarrow> (frame list \<times> expecting) option" where
  "start_value st (TString s) = complete (JStr s) st"
| "start_value st (TNumber n) = complete (JNum n) st"
| "start_value st TTrue = complete (JBool True) st"
| "start_value st TFalse = complete (JBool False) st"
| "start_value st TNull = complete JNull st"
| "start_value st LBracket = Some (InArray [] # st, AValueOrClose)"
| "start_value st LBrace = Some (InObject [] None # st, AKeyOrClose)"
| "start_value st t = None"

fun close_frame :: "frame list \<Rightarrow> token \<Rightarrow> (frame list \<times> expecting) option" where
  "close_frame (InArray vs # st) RBracket = complete (JArr vs) st"
| "close_frame (InObject ms None # st) RBrace = complete (JObj ms) st"
| "close_frame st t = None"

fun take_key :: "frame list \<Rightarrow> token \<Rightarrow> (frame list \<times> expecting) option" where
  "take_key (InObject ms None # st) (TString k) = Some (InObject ms (Some k) # st, AColon)"
| "take_key st t = None"

fun parse_step :: "frame list \<times> expecting \<Rightarrow> token \<Rightarrow> (frame list \<times> expecting) option" where
  "parse_step (st, AValue) t = start_value st t"
| "parse_step (st, AValueOrClose) t = (if t = RBracket then close_frame st t else start_value st t)"
| "parse_step (st, AKeyOrClose) t = (if t = RBrace then close_frame st t else take_key st t)"
| "parse_step (st, AKey) t = take_key st t"
| "parse_step (st, AColon) t = (if t = Colon then Some (st, AValue) else None)"
| "parse_step (st, ACommaOrClose) t =
     (if t = Comma then
        (case st of
           InArray vs # st' \<Rightarrow> Some (st, AValue)
         | InObject ms k # st' \<Rightarrow> Some (st, AKey)
         | [] \<Rightarrow> None)
      else close_frame st t)"
| "parse_step (st, Finished v) t = None"

fun parse_tokens :: "frame list \<times> expecting \<Rightarrow> token list \<Rightarrow> json option" where
  "parse_tokens (st, Finished v) [] = Some v"
| "parse_tokens (st, e) [] = None"
| "parse_tokens p (t # ts) =
     (case parse_step p t of None \<Rightarrow> None | Some p' \<Rightarrow> parse_tokens p' ts)"

text \<open>\<open>JSON.parse(text)\<close>: the value, or \<open>None\<close> where it throws a \<open>SyntaxError\<close>.\<close>

definition JSON_parse :: "js_string \<Rightarrow> json option" where
  "JSON_parse t = (case lex t of None \<Rightarrow> None | Some ts \<Rightarrow> parse_tokens ([], AValue) ts)"

text \<open>
  Reading property \<open>k\<close> of a parsed value other than \<open>null\<close>, for the keys this client
  reads (\<open>error\<close>, \<open>message\<close>, \<open>details\<close>, none of them inherited from a prototype): an
  object gives its own property, or \<open>undefined\<close> (\<open>None\<close>) when it has none of that name, and
  any other value gives \<open>undefined\<close>. Reading a property of \<open>null\<close> throws a \<open>TypeError\<close>;
  the functions below take that case first.
\<close>

fun get_prop :: "json \<Rightarrow> js_string \<Rightarrow> json option" where
  "get_prop (JObj ms) k = map_of ms k"
| "get_prop v k = None"

section \<open>Errors (\<open>types.ts\<close>, \<open>client.ts\<close>)\<close>

text \<open>
  What a \<open>catch\<close> block of the client can receive from the platform: an instance of
  \<open>Error\<close> with its name and message, another object (with its \<open>name\<close> property when that
  is a string), a string, or any other value.
\<close>

datatype thrown =
    JsError js_string js_string
  | JsObject "js_string option"
  | JsString js_string
  | JsOther

fun isAbortError :: "thrown \<Rightarrow> bool" where
  "isAbortError (JsError name msg) = (name = js ''AbortError'')"
| "isAbortError (JsObject name) = (name = Some (js ''AbortError''))"
| "isAbortError e = False"

fun getErrorMessage :: "thrown \<Rightarrow> js_string" where
  "getErrorMessage (JsError name msg) = msg"
| "getErrorMessage (JsString s) = s"
| "getErrorMessage e = js ''Unknown error''"

text \<open>
  \<open>EasyRAGError\<close>. The constructor hands its first argument to that of \<open>Error\<close>, which
  stores \<open>ToString\<close> of it as \<open>message\<close>; \<open>status\<close>, \<open>code\<close> and \<open>details\<close> are stored as
  they are given, \<open>details\<close> being a field of the response body or the value that was
  caught.
\<close>

datatype detail = FromBody json | Caught thrown

record EasyRAGError =
  message :: js_string
  status :: "nat option"
  code :: "json option"
  details :: "detail option"

text \<open>\<open>a || b\<close> where \<open>a\<close> may be undefined.\<close>

fun or_else :: "json option \<Rightarrow> json \<Rightarrow> json" where
  "or_else (Some a) b = (if truthy a then a else b)"
| "or_else None b = b"

text \<open>
  Errors of the platform itself. The abort of a pending \<open>fetch\<close> rejects it with a
  \<open>DOMException\<close> named \<open>AbortError\<close>; reading a property of \<open>null\<close> and converting an
  object that has no callable \<open>toString\<close> to a string throw a \<open>TypeError\<close>. The wording of
  their messages is the engine's (here Node's), and only that of a \<open>TypeError\<close> can reach
  a caller.
\<close>

definition abort_error :: thrown where
  "abort_error = JsError (js ''AbortError'') (js ''This operation was aborted'')"

definition null_read_error :: "js_string \<Rightarrow> thrown" where
  "null_read_error k =
     JsError (js ''TypeError'')
       (js ''Cannot read properties of null (reading '' @ [39] @ k @ [39, 41])"

definition to_primitive_error :: thrown where
  "to_primitive_error =
     JsError (js ''TypeError'') (js ''Cannot convert object to primitive value'')"

definition timeout_error :: EasyRAGError where
  "timeout_error =
     \<lparr>message = js ''Request timeout'', status = None, code = None, details = None\<rparr>"

section \<open>One HTTP exchange, as the client sees it\<close>

text \<open>
  What happens after \<open>fetch\<close> is called and the timer is armed. Either the timer's
  duration elapses while \<open>fetch\<close> is pending, or \<open>fetch\<close> rejects, or it resolves with a
  status and a body. The body (absent for some responses) is a sequence of chunks and then
  ends, fails, or never delivers anything more. \<open>Elapse\<close> among the chunks marks the
  moment the configured duration has passed since the call began.
\<close>

datatype body_event = Elapse | Chunk "byte list"

datatype body_end = Ends | Fails thrown | Stalls

datatype body = NoBody | Body "body_event list" body_end

datatype exchange = TimerFirst | Rejects thrown | Resolves nat body

text \<open>
  How a call ends: it returns, throws an \<open>EasyRAGError\<close>, rejects with something else, or
  is still waiting when the exchange has nothing more to deliver.
\<close>

datatype rejection = BadJson | Transport thrown

datatype 'a outcome = Returned 'a | Threw EasyRAGError | Rejected rejection | Pending

definition ok :: "nat \<Rightarrow> bool" where
  "ok st = (200 \<le> st \<and> st \<le> 299)"

fun chunk_bytes :: "body_event \<Rightarrow> byte list" where
  "chunk_bytes Elapse = []"
| "chunk_bytes (Chunk bs) = bs"

definition body_bytes :: "body_event list \<Rightarrow> byte list" where
  "body_bytes evs = concat (map chunk_bytes evs)"

text \<open>\<open>response.json()\<close>: the whole body is read, decoded and parsed.\<close>

datatype json_promise = Parsed json | SyntaxErr | ReadFailed thrown | NeverSettles

fun response_json :: "body \<Rightarrow> json_promise" where
  "response_json NoBody = (case JSON_parse [] of Some v \<Rightarrow> Parsed v | None \<Rightarrow> SyntaxErr)"
| "response_json (Body evs Ends) =
     (case JSON_parse (utf8_decode (body_bytes evs)) of
        Some v \<Rightarrow> Parsed v
      | None \<Rightarrow> SyntaxErr)"
| "response_json (Body evs (Fails t)) = ReadFailed t"
| "response_json (Body evs Stalls) = NeverSettles"

section \<open>The client (\<open>client.ts\<close>)\<close>

record EasyRAGConfig =
  apiKey :: js_string
  baseUrl :: "js_string option"
  timeout :: "int option"

datatype config_arg = KeyString js_string | ConfigObject EasyRAGConfig

record EasyRAG =
  this_apiKey :: js_string
  this_baseUrl :: js_string
  this_timeout :: int

fun constructor :: "config_arg \<Rightarrow> EasyRAG" where
  "constructor (KeyString config) =
     \<lparr>this_apiKey = config, this_baseUrl = js ''https://api.easyrag.com'',
      this_timeout = 30000\<rparr>"
| "constructor (ConfigObject config) =
     \<lparr>this_apiKey = apiKey config,
      this_baseUrl = (case baseUrl config of
                        None \<Rightarrow> js ''https://api.easyrag.com''
                      | Some u \<Rightarrow> if u \<noteq> [] then u else js ''https://api.easyrag.com''),
      this_timeout = (case timeout config of
                        None \<Rightarrow> 30000
                      | Some t \<Rightarrow> if t \<noteq> 0 then t else 30000)\<rparr>"

subsection \<open>What is handed to \<open>fetch\<close>\<close>

text \<open>
  A URL is kept as the pieces of its template: \<open>Enc s\<close> stands for
  \<open>encodeURIComponent(s)\<close>, which is not evaluated here. A JSON body is kept as the value
  given to \<open>JSON.stringify\<close>, \<open>JsonText v\<close> in a form likewise. The abort signal, the same
  in every call, is left out.
\<close>

datatype url_piece = Lit js_string | Enc js_string

record File =
  file_name :: js_string
  file_type :: js_string
  file_bits :: "byte list"

datatype form_value = Text js_string | Blob File | JsonText json

datatype request_body = FormData "(js_string \<times> form_value) list" | JsonBody json

record RequestInit =
  http_method :: "js_string option"
  headers :: "(js_string \<times> js_string) list option"
  body :: "request_body option"

record fetch_call =
  url :: "url_piece list"
  fetch_method :: "js_string option"
  fetch_headers :: "(js_string \<times> js_string) list"
  fetch_body :: "request_body option"

text \<open>
  Object spread \<open>{...a, ...b}\<close> on objects kept as lists of properties: a property of \<open>b\<close>
  replaces the value of the same key in place, a new key goes to the end.
\<close>

definition spread :: "('k \<times> 'v) list \<Rightarrow> ('k \<times> 'v) list \<Rightarrow> ('k \<times> 'v) list" where
  "spread a b = foldl (\<lambda>acc (k, v). AList.update k v acc) a b"

definition bearer :: "EasyRAG \<Rightarrow> js_string" where
  "bearer c = js ''Bearer '' @ this_apiKey c"

subsection \<open>\<open>request\<close>\<close>

text \<open>The \<open>catch\<close> block of \<open>request\<close> on a value that is no \<open>EasyRAGError\<close>.\<close>

definition catch_request :: "thrown \<Rightarrow> EasyRAGError" where
  "catch_request error =
     (if isAbortError error then timeout_error
      else \<lparr>message = (if getErrorMessage error \<noteq> [] then getErrorMessage error
                       else js ''Network error''),
            status = None, code = None, details = Some (Caught error)\<rparr>)"

text \<open>
  The error built from a response that is not \<open>ok\<close>, from the parsed body \<open>error\<close>
  (\<open>{}\<close> when \<open>response.json()\<close> failed). Reading \<open>error.error\<close> throws when the body
  is \<open>null\<close>, and the constructor throws when the message has no conversion to a string;
  the \<open>catch\<close> block then wraps that \<open>TypeError\<close>.
\<close>

definition request_failure :: "nat \<Rightarrow> json \<Rightarrow> EasyRAGError" where
  "request_failure st error =
     (if error = JNull then catch_request (null_read_error (js ''error''))
      else
        (case ToString (or_else (get_prop error (js ''error''))
                         (or_else (get_prop error (js ''message''))
                            (JStr (js ''HTTP '' @ nat_text st)))) of
           None \<Rightarrow> catch_request to_primitive_error
         | Some msg \<Rightarrow>
             \<lparr>message = msg,
              status = Some st,
              code = get_prop error (js ''error''),
              details = map_option FromBody (get_prop error (js ''details''))\<rparr>))"

definition request :: "EasyRAG \<Rightarrow> url_piece list \<Rightarrow> RequestInit \<Rightarrow> exchange \<Rightarrow>
    fetch_call \<times> json outcome" where
  "request c endpoint options x =
     (\<lparr>url = Lit (this_baseUrl c) # endpoint,
       fetch_method = http_method options,
       fetch_headers = spread [(js ''Authorization'', bearer c)]
                         (case headers options of None \<Rightarrow> [] | Some h \<Rightarrow> h),
       fetch_body = body options\<rparr>,
      case x of
        TimerFirst \<Rightarrow> Threw (catch_request abort_error)
      | Rejects t \<Rightarrow> Threw (catch_request t)
      | Resolves st b \<Rightarrow>
          if \<not> ok st then
            (case response_json b of
               NeverSettles \<Rightarrow> Pending
             | Parsed error \<Rightarrow> Threw (request_failure st error)
             | _ \<Rightarrow> Threw (request_failure st (JObj [])))
          else
            (case response_json b of
               Parsed v \<Rightarrow> Returned v
             | SyntaxErr \<Rightarrow> Rejected BadJson
             | ReadFailed t \<Rightarrow> Rejected (Transport t)
             | NeverSettles \<Rightarrow> Pending))"

subsection \<open>The methods built on \<open>request\<close>\<close>

datatype files_arg = OneFile File | FileArray "File list"

record UploadOptions =
  metadata :: "json option"
  chunkSize :: "int option"
  chunkOverlap :: "int option"

text \<open>The entries appended to the \<open>FormData\<close> of \<open>upload\<close>, in order.\<close>

definition upload_form :: "js_string \<Rightarrow> files_arg \<Rightarrow> UploadOptions \<Rightarrow>
    (js_string \<times> form_value) list" where
  "upload_form datasetId files options =
     (let fileArray = (case files of FileArray fs \<Rightarrow> fs | OneFile f \<Rightarrow> [f])
      in [(js ''datasetId'', Text datasetId)]
         @ map (\<lambda>file. (js ''file'', Blob file)) fileArray
         @ (case metadata options of
              Some m \<Rightarrow> if truthy m then [(js ''metadata'', JsonText m)] else []
            | None \<Rightarrow> [])
         @ (case chunkSize options of
              Some n \<Rightarrow> [(js ''chunkSize'', Text (Number_toString (of_int n)))]
            | None \<Rightarrow> [])
         @ (case chunkOverlap options of
              Some n \<Rightarrow> [(js ''chunkOverlap'', Text (Number_toString (of_int n)))]
            | None \<Rightarrow> []))"

definition upload :: "EasyRAG \<Rightarrow> js_string \<Rightarrow> files_arg \<Rightarrow> UploadOptions \<Rightarrow> exchange \<Rightarrow>
    fetch_call \<times> json outcome" where
  "upload c datasetId files options =
     request c [Lit (js ''/v1/files/upload'')]
       \<lparr>http_method = Some (js ''POST''), headers = None,
        body = Some (FormData (upload_form datasetId files options))\<rparr>"

definition listFiles :: "EasyRAG \<Rightarrow> js_string \<Rightarrow> exchange \<Rightarrow> fetch_call \<times> json outcome" where
  "listFiles c datasetId =
     request c [Lit (js ''/v1/files?datasetId=''), Enc datasetId]
       \<lparr>http_method = None, headers = None, body = None\<rparr>"

definition getFile :: "EasyRAG \<Rightarrow> js_string \<Rightarrow> js_string \<Rightarrow> exchange \<Rightarrow>
    fetch_call \<times> json outcome" where
  "getFile c datasetId fileId =
     request c [Lit (js ''/v1/files/''), Lit fileId, Lit (js ''?datasetId=''), Enc datasetId]
       \<lparr>http_method = None, headers = None, body = None\<rparr>"

definition deleteFile :: "EasyRAG \<Rightarrow> js_string \<Rightarrow> js_string \<Rightarrow> exchange \<Rightarrow>
    fetch_call \<times> json outcome" where
  "deleteFile c datasetId fileId =
     request c [Lit (js ''/v1/files/''), Lit fileId, Lit (js ''?datasetId=''), Enc datasetId]
       \<lparr>http_method = Some (js ''DELETE''), headers = None, body = None\<rparr>"

definition deleteDataset :: "EasyRAG \<Rightarrow> js_string \<Rightarrow> exchange \<Rightarrow>
    fetch_call \<times> json outcome" where
  "deleteDataset c datasetId =
     request c [Lit (js ''/v1/datasets/''), Enc datasetId, Lit (js ''/files'')]
       \<lparr>http_method = Some (js ''DELETE''), headers = None, body = None\<rparr>"

definition deleteAll :: "EasyRAG \<Rightarrow> exchange \<Rightarrow> fetch_call \<times> json outcome" where
  "deleteAll c =
     request c [Lit (js ''/v1/files'')]
       \<lparr>http_method = Some (js ''DELETE''), headers = None, body = None\<rparr>"

record SearchFilter =
  key :: js_string
  match_value :: json

record SearchOptions =
  filters :: "SearchFilter list option"

text \<open>The own properties of an options object, as \<open>...options\<close> spreads them.\<close>

definition filter_json :: "SearchFilter \<Rightarrow> json" where
  "filter_json f =
     JObj [(js ''key'', JStr (key f)), (js ''match'', JObj [(js ''value'', match_value f)])]"

definition options_props :: "SearchOptions \<Rightarrow> (js_string \<times> json) list" where
  "options_props options =
     (case filters options of
        None \<Rightarrow> []
      | Some fs \<Rightarrow> [(js ''filters'', JArr (map filter_json fs))])"

definition json_headers :: "(js_string \<times> js_string) list" where
  "json_headers = [(js ''Content-Type'', js ''application/json'')]"

definition search :: "EasyRAG \<Rightarrow> js_string \<Rightarrow> js_string \<Rightarrow> SearchOptions \<Rightarrow> exchange \<Rightarrow>
    fetch_call \<times> json outcome" where
  "search c datasetId question options =
     request c [Lit (js ''/v1/search'')]
       \<lparr>http_method = Some (js ''POST''), headers = Some json_headers,
        body = Some (JsonBody (JObj (spread
                 [(js ''datasetId'', JStr datasetId), (js ''question'', JStr question)]
                 (options_props options))))\<rparr>"

definition query :: "EasyRAG \<Rightarrow> js_string \<Rightarrow> js_string \<Rightarrow> SearchOptions \<Rightarrow> exchange \<Rightarrow>
    fetch_call \<times> json outcome" where
  "query c datasetId question options =
     request c [Lit (js ''/v1/query'')]
       \<lparr>http_method = Some (js ''POST''), headers = Some json_headers,
        body = Some (JsonBody (JObj (spread
                 [(js ''datasetId'', JStr datasetId), (js ''question'', JStr question),
                  (js ''stream'', JBool False)]
                 (options_props options))))\<rparr>"

record CreateTokenOptions =
  ttlSeconds :: "int option"

definition createToken :: "EasyRAG \<Rightarrow> js_string \<Rightarrow> CreateTokenOptions \<Rightarrow> exchange \<Rightarrow>
    fetch_call \<times> json outcome" where
  "createToken c datasetId options =
     request c [Lit (js ''/v1/tokens/create'')]
       \<lparr>http_method = Some (js ''POST''), headers = Some json_headers,
        body = Some (JsonBody (JObj
                 [(js ''datasetId'', JStr datasetId),
                  (js ''ttlSeconds'',
                   JNum (of_int (case ttlSeconds options of
                                   None \<Rightarrow> 3600
                                 | Some n \<Rightarrow> if n \<noteq> 0 then n else 3600)))]))\<rparr>"

subsection \<open>\<open>queryStream\<close>\<close>

text \<open>\<open>buffer.split('\n')\<close>: never empty; the last piece is what follows the last newline.\<close>

fun split_nl :: "js_string \<Rightarrow> js_string list" where
  "split_nl [] = [[]]"
| "split_nl (c # cs) =
     (if c = 10 then [] # split_nl cs
      else (case split_nl cs of l # ls \<Rightarrow> (c # l) # ls | [] \<Rightarrow> [[c]]))"

text \<open>
  The body of the \<open>for\<close> loop on one complete line: a line with the \<open>data: \<close> marker whose
  rest parses yields the parsed value; on a \<open>SyntaxError\<close> the loop continues; any other
  line is passed over.
\<close>

definition frame_events :: "js_string \<Rightarrow> json list" where
  "frame_events line =
     (if prefix (js ''data: '') line then
        (case JSON_parse (drop 6 line) of Some data \<Rightarrow> [data] | None \<Rightarrow> [])
      else [])"

definition lines_events :: "js_string list \<Rightarrow> json list" where
  "lines_events lines = concat (map frame_events lines)"

text \<open>
  The \<open>while\<close> loop over \<open>reader.read()\<close>, with the decoder and the buffer as its state:
  the events yielded and how the generator ends. The timer was cleared before the loop,
  so \<open>Elapse\<close> changes nothing. A failed read is caught by the \<open>catch\<close> block of
  \<open>queryStream\<close>.
\<close>

definition catch_stream :: "thrown \<Rightarrow> EasyRAGError" where
  "catch_stream error =
     (if isAbortError error then timeout_error
      else \<lparr>message = (if getErrorMessage error \<noteq> [] then getErrorMessage error
                       else js ''Streaming error''),
            status = None, code = None, details = None\<rparr>)"

fun read_loop :: "text_decoder \<Rightarrow> js_string \<Rightarrow> body_event list \<Rightarrow> body_end \<Rightarrow>
    json list \<times> unit outcome" where
  "read_loop decoder buffer [] Ends = ([], Returned ())"
| "read_loop decoder buffer [] (Fails t) = ([], Threw (catch_stream t))"
| "read_loop decoder buffer [] Stalls = ([], Pending)"
| "read_loop decoder buffer (Elapse # evs) e = read_loop decoder buffer evs e"
| "read_loop decoder buffer (Chunk v # evs) e =
     (let (decoder', text) = decode decoder v;
          lines = split_nl (buffer @ text);
          buffer' = (if lines = [] then [] else last lines);
          (later, out) = read_loop decoder' buffer' evs e
      in (lines_events (butlast lines) @ later, out))"

text \<open>
  The error of \<open>queryStream\<close> for a response that is not \<open>ok\<close>: the message and the
  status only.
\<close>

definition stream_failure :: "nat \<Rightarrow> json \<Rightarrow> EasyRAGError" where
  "stream_failure st error =
     (if error = JNull then catch_stream (null_read_error (js ''error''))
      else
        (case ToString (or_else (get_prop error (js ''error''))
                         (JStr (js ''HTTP '' @ nat_text st))) of
           None \<Rightarrow> catch_stream to_primitive_error
         | Some msg \<Rightarrow> \<lparr>message = msg, status = Some st, code = None, details = None\<rparr>))"

definition queryStream :: "EasyRAG \<Rightarrow> js_string \<Rightarrow> js_string \<Rightarrow> SearchOptions \<Rightarrow> exchange \<Rightarrow>
    fetch_call \<times> json list \<times> unit outcome" where
  "queryStream c datasetId question options x =
     (\<lparr>url = [Lit (this_baseUrl c), Lit (js ''/v1/query'')],
       fetch_method = Some (js ''POST''),
       fetch_headers = [(js ''Authorization'', bearer c),
                        (js ''Content-Type'', js ''application/json'')],
       fetch_body = Some (JsonBody (JObj (spread
                      [(js ''datasetId'', JStr datasetId), (js ''question'', JStr question),
                       (js ''stream'', JBool True)]
                      (options_props options))))\<rparr>,
      case x of
        TimerFirst \<Rightarrow> ([], Threw (catch_stream abort_error))
      | Rejects t \<Rightarrow> ([], Threw (catch_stream t))
      | Resolves st b \<Rightarrow>
          if \<not> ok st then
            (case response_json b of
               NeverSettles \<Rightarrow> ([], Pending)
             | Parsed error \<Rightarrow> ([], Threw (stream_failure st error))
             | _ \<Rightarrow> ([], Threw (stream_failure st (JObj []))))
          else
            (case b of
               NoBody \<Rightarrow> ([], Threw (catch_stream (null_read_error (js ''getReader''))))
             | Body evs e \<Rightarrow> read_loop new_TextDecoder [] evs e))"

text \<open>How the loop ends once the chunks are consumed.\<close>

fun end_outcome :: "body_end \<Rightarrow> unit outcome" where
  "end_outcome Ends = Returned ()"
| "end_outcome (Fails t) = Threw (catch_stream t)"
| "end_outcome Stalls = Pending"

text \<open>
  The complete lines of a response: its bytes decoded as one text and split at the
  newlines, without the piece after the last newline.
\<close>

definition complete_lines :: "body_event list \<Rightarrow> js_string list" where
  "complete_lines evs = butlast (split_nl (snd (decode new_TextDecoder (body_bytes evs))))"

text \<open>
  The shapes of \<open>StreamEvent\<close> in \<open>types.ts\<close>, \<open>{delta: string}\<close>, \<open>{done: true}\<close> and
  \<open>{error: string}\<close>, with exactly one of the three fields present.
\<close>

fun is_StreamEvent :: "json \<Rightarrow> bool" where
  "is_StreamEvent (JObj ms) =
     (case (map_of ms (js ''delta''), map_of ms (js ''done''), map_of ms (js ''error'')) of
        (Some (JStr s), None, None) \<Rightarrow> True
      | (None, Some (JBool True), None) \<Rightarrow> True
      | (None, None, Some (JStr s)) \<Rightarrow> True
      | _ \<Rightarrow> False)"
| "is_StreamEvent v = False"

text \<open>
  The configured duration elapses before the exchange is complete: while \<open>fetch\<close> is
  pending, or later, while the body is being read.
\<close>

fun elapses :: "exchange \<Rightarrow> bool" where
  "elapses TimerFirst = True"
| "elapses (Rejects t) = False"
| "elapses (Resolves st NoBody) = False"
| "elapses (Resolves st (Body evs e)) = (Elapse \<in> set evs)"


text \<open>The file parts of a form.\<close>

fun is_file_part :: "js_string \<times> form_value \<Rightarrow> bool" where
  "is_file_part (k, Blob f) = True"
| "is_file_part (k, v) = False"

section \<open>Properties of the stream decoder\<close>

subsection \<open>Decoding and line splitting do not depend on the chunk boundaries\<close>

lemma run_utf8_append:
  "run_utf8 d (a @ b) =
     (let (d1, o1) = run_utf8 d a; (d2, o2) = run_utf8 d1 b in (d2, o1 @ o2))"
  by (induction a arbitrary: d) (simp_all add: split_beta)

lemma serialize_append:
  "serialize s (a @ b) =
     (let (s1, t1) = serialize s a; (s2, t2) = serialize s1 b in (s2, t1 @ t2))"
  by (induction a arbitrary: s) (simp_all add: split_beta)

lemma decode_append:
  "decode td (a @ b) =
     (let (td1, t1) = decode td a; (td2, t2) = decode td1 b in (td2, t1 @ t2))"
  by (simp add: decode_def run_utf8_append serialize_append split_beta)

lemma split_nl_nonempty: "split_nl t \<noteq> []"
  by (induction t) (auto split: list.splits)

lemma split_nl_Cons:
  "split_nl (c # cs) =
     (if c = 10 then [] # split_nl cs else (c # hd (split_nl cs)) # tl (split_nl cs))"
  using split_nl_nonempty [of cs] by (cases "split_nl cs") simp_all

lemma last_split_nl_no_newline: "10 \<notin> set (last (split_nl t))"
proof (induction t)
  case Nil
  then show ?case by simp
next
  case (Cons c t)
  then show ?case
    using split_nl_nonempty [of t] by (cases "split_nl t") (auto split: list.splits)
qed

lemma split_nl_no_newline: "10 \<notin> set t \<Longrightarrow> split_nl t = [t]"
  by (induction t) auto

lemma split_nl_append:
  "split_nl (a @ b) = butlast (split_nl a) @ split_nl (last (split_nl a) @ b)"
proof (induction a)
  case Nil
  then show ?case by simp
next
  case (Cons c a)
  obtain l ls where sp: "split_nl a = l # ls"
    using split_nl_nonempty [of a] by (cases "split_nl a") auto
  show ?case
  proof (cases "c = 10")
    case True
    then show ?thesis using Cons by (simp add: split_nl_nonempty)
  next
    case False
    show ?thesis
    proof (cases ls)
      case Nil
      with sp False Cons.IH show ?thesis
        by (simp del: split_nl.simps(2) add: split_nl_Cons)
    next
      case (Cons l' ls')
      with sp False Cons.IH show ?thesis
        by (simp del: split_nl.simps(2) add: split_nl_Cons split_nl_nonempty)
    qed
  qed
qed

lemma decode_Nil: "decode td [] = (td, [])"
  by (simp add: decode_def)

lemma lines_events_append: "lines_events (a @ b) = lines_events a @ lines_events b"
  by (simp add: lines_events_def)

lemma read_loop_outcome: "snd (read_loop td buf evs e) = end_outcome e"
proof (induction td buf evs e rule: read_loop.induct)
  case (5 decoder buffer v evs e)
  then show ?case by (simp add: split_beta Let_def)
qed simp_all

lemma read_loop_events:
  "10 \<notin> set buf \<Longrightarrow>
   fst (read_loop td buf evs e) =
     lines_events (butlast (split_nl (buf @ snd (decode td (body_bytes evs)))))"
proof (induction evs arbitrary: td buf)
  case Nil
  then show ?case
    by (cases e) (simp_all add: body_bytes_def decode_Nil split_nl_no_newline lines_events_def)
next
  case (Cons ev evs)
  show ?case
  proof (cases ev)
    case Elapse
    with Cons show ?thesis by (simp add: body_bytes_def)
  next
    case (Chunk v)
    obtain td1 t1 where d1: "decode td v = (td1, t1)" by (cases "decode td v")
    obtain td2 t2 where d2: "decode td1 (body_bytes evs) = (td2, t2)"
      by (cases "decode td1 (body_bytes evs)")
    let ?lines = "split_nl (buf @ t1)"
    have whole: "snd (decode td (body_bytes (ev # evs))) = t1 @ t2"
      using Chunk d1 d2 by (simp add: body_bytes_def decode_append)
    have later: "fst (read_loop td1 (last ?lines) evs e) =
        lines_events (butlast (split_nl (last ?lines @ t2)))"
      using Cons.IH [of "last ?lines" td1] d2 by (simp add: last_split_nl_no_newline)
    have "fst (read_loop td buf (ev # evs) e) =
        lines_events (butlast ?lines) @ fst (read_loop td1 (last ?lines) evs e)"
      using Chunk d1 by (simp add: split_beta Let_def split_nl_nonempty)
    also have "\<dots> = lines_events (butlast (butlast ?lines @ split_nl (last ?lines @ t2)))"
      by (simp add: later lines_events_append butlast_append split_nl_nonempty)
    also have "\<dots> = lines_events (butlast (split_nl ((buf @ t1) @ t2)))"
      by (simp only: split_nl_append [of "buf @ t1" t2])
    finally show ?thesis by (simp add: whole)
  qed
qed

lemma utf8_handler_ascii:
  "bytes_needed d = 0 \<Longrightarrow> b < 128 \<Longrightarrow> utf8_handler d b = (d, [b])"
  by (simp add: utf8_handler_def utf8_lead_def)

lemma run_utf8_ascii:
  "bytes_needed d = 0 \<Longrightarrow> \<forall>c\<in>set t. c < 128 \<Longrightarrow>
   run_utf8 d (map of_nat t) = (d, t)"
proof (induction t)
  case Nil
  then show ?case by simp
next
  case (Cons c t)
  then have "unat (of_nat c :: byte) = c"
    by (simp add: unat_of_nat)
  with Cons show ?case
    by (simp add: utf8_handler_ascii)
qed

lemma serialize_ascii:
  "\<forall>c\<in>set t. c < 128 \<Longrightarrow> snd (serialize seen t) = t"
  by (induction t arbitrary: seen) (auto simp: utf16_def split_beta)

lemma decode_ascii:
  "bytes_needed (utf8 td) = 0 \<Longrightarrow> \<forall>c\<in>set t. c < 128 \<Longrightarrow>
   snd (decode td (map of_nat t)) = t"
  by (simp add: decode_def run_utf8_ascii serialize_ascii split_beta)

lemma decode_ascii_literal:
  "\<forall>c\<in>set (js s). c < 128 \<Longrightarrow> snd (decode new_TextDecoder (ascii s)) = js s"
  by (simp add: ascii_def decode_ascii new_TextDecoder_def utf8_initial_def)

lemma ascii_append: "ascii a @ ascii b = ascii (a @ b)"
  by (simp add: ascii_def js_def)

lemma complete_lines_ascii:
  "\<forall>c\<in>set (js s). c < 128 \<Longrightarrow> body_bytes evs = ascii s \<Longrightarrow>
   complete_lines evs = butlast (split_nl (js s))"
  by (simp add: complete_lines_def decode_ascii_literal)

text \<open>
  A streaming query on a response that is \<open>ok\<close>: the events are those of the complete
  lines, in order, and the generator ends as the body does.
\<close>

lemma queryStream_ok:
  assumes "ok st"
  shows "snd (queryStream c datasetId question options (Resolves st (Body evs e))) =
    (lines_events (complete_lines evs), end_outcome e)"
  using assms read_loop_events [of "[]" new_TextDecoder evs e]
    read_loop_outcome [of new_TextDecoder "[]" evs e]
  by (simp add: queryStream_def complete_lines_def prod_eq_iff)

lemmas json_eval = JSON_parse_def js_def is_digit_def scan_number_def scan_int_def scan_frac_def
  scan_exp_def decimal_def digits_value_def hex_value_def escape_char_def
lemmas stream_eval = lines_events_def frame_events_def

lemma frame_events_skipped:
  "\<not> prefix (js ''data: '') l \<or> JSON_parse (drop 6 l) = None \<Longrightarrow> frame_events l = []"
  by (auto simp: frame_events_def)

lemma set_lines_events:
  "set (lines_events ls) =
     {v. \<exists>l\<in>set ls. prefix (js ''data: '') l \<and> JSON_parse (drop 6 l) = Some v}"
  by (auto simp: lines_events_def frame_events_def split: option.splits if_splits)

subsection \<open>Response bodies\<close>

lemma utf8_decode_ascii:
  "\<forall>c\<in>set (js s). c < 128 \<Longrightarrow> utf8_decode (ascii s) = js s"
  by (simp add: utf8_decode_def ascii_def run_utf8_ascii serialize_ascii utf8_initial_def)

lemma response_json_ascii:
  "\<forall>c\<in>set (js s). c < 128 \<Longrightarrow> JSON_parse (js s) = Some v \<Longrightarrow>
   response_json (Body [Chunk (ascii s)] Ends) = Parsed v"
  by (simp add: body_bytes_def utf8_decode_ascii)

lemma insufficient_credits_body:
  "response_json (Body [Chunk (ascii
      ''{\"error\":\"INSUFFICIENT_CREDITS\",\"details\":{\"required\":1,\"available\":0}}'')] Ends) =
   Parsed (JObj [(js ''error'', JStr (js ''INSUFFICIENT_CREDITS'')),
                 (js ''details'', JObj [(js ''required'', JNum 1), (js ''available'', JNum 0)])])"
proof (rule response_json_ascii)
  show "\<forall>c\<in>set (js ''{\"error\":\"INSUFFICIENT_CREDITS\",\"details\":{\"required\":1,\"available\":0}}''). c < 128"
    by (simp add: js_def)
  show "JSON_parse (js ''{\"error\":\"INSUFFICIENT_CREDITS\",\"details\":{\"required\":1,\"available\":0}}'') =
    Some (JObj [(js ''error'', JStr (js ''INSUFFICIENT_CREDITS'')),
                (js ''details'', JObj [(js ''required'', JNum 1), (js ''available'', JNum 0)])])"
    by (simp add: json_eval)
qed

lemma bad_request_body:
  "response_json (Body [Chunk (ascii ''{\"message\":\"Bad request\"}'')] Ends) =
   Parsed (JObj [(js ''message'', JStr (js ''Bad request''))])"
proof (rule response_json_ascii)
  show "\<forall>c\<in>set (js ''{\"message\":\"Bad request\"}''). c < 128"
    by (simp add: js_def)
  show "JSON_parse (js ''{\"message\":\"Bad request\"}'') =
    Some (JObj [(js ''message'', JStr (js ''Bad request''))])"
    by (simp add: json_eval)
qed

subsection \<open>The timer and the headers\<close>

lemma body_bytes_without_Elapse:
  "body_bytes (filter (\<lambda>ev. ev \<noteq> Elapse) evs) = body_bytes evs"
  by (induction evs) (auto simp: body_bytes_def)

lemma response_json_without_Elapse:
  "response_json (Body (filter (\<lambda>ev. ev \<noteq> Elapse) evs) e) = response_json (Body evs e)"
  by (cases e) (simp_all add: body_bytes_without_Elapse)

lemma read_loop_without_Elapse:
  "read_loop td buf (filter (\<lambda>ev. ev \<noteq> Elapse) evs) e = read_loop td buf evs e"
proof (induction td buf evs e rule: read_loop.induct)
  case (5 decoder buffer v evs e)
  then show ?case by (simp add: split_beta Let_def)
qed simp_all

lemma isAbortError_abort_error: "isAbortError abort_error"
  by (simp add: abort_error_def)




subsection \<open>Behaviour at the edges\<close>

lemmas decode_eval = decode_def new_TextDecoder_def utf8_initial_def utf8_handler_def
  utf8_lead_def utf16_def ascii_def js_def body_bytes_def

text \<open>
  A character whose two bytes arrive in different chunks is decoded once both are there:
  \<open>data: "\<close> and the first byte of U+00E9, then its second byte, the closing quote and a
  newline, yield the string of that one character.
\<close>

lemma queryStream_split_character:
  "snd (queryStream (constructor (KeyString (js ''sk-1''))) (js ''docs'') (js ''why?'')
          \<lparr>filters = None\<rparr>
          (Resolves 200 (Body [Chunk (ascii ''data: \"'' @ [0xC3]),
                               Chunk ([0xA9] @ ascii ''\"\<newline>'')] Ends))) =
     ([JStr [0xE9]], Returned ())"
proof -
  have ok: "ok 200"
    by (simp add: ok_def)
  show ?thesis
    by (simp add: queryStream_def ok decode_eval stream_eval json_eval)
qed

text \<open>
  The loop ends at the end of the body without looking at the buffer: a last line that no
  newline ends yields nothing.
\<close>

lemma queryStream_unterminated_line:
  "snd (queryStream (constructor (KeyString (js ''sk-1''))) (js ''docs'') (js ''why?'')
          \<lparr>filters = None\<rparr>
          (Resolves 200 (Body [Chunk (ascii ''data: 1\<newline>data: 2'')] Ends))) =
     ([JNum 1], Returned ())"
proof -
  have ok: "ok 200"
    by (simp add: ok_def)
  have ascii: "\<forall>c\<in>set (js ''data: 1\<newline>data: 2''). c < 128"
    by (simp add: js_def)
  have "body_bytes [Chunk (ascii ''data: 1\<newline>data: 2'')] = ascii ''data: 1\<newline>data: 2''"
    by (simp add: body_bytes_def)
  then have "complete_lines [Chunk (ascii ''data: 1\<newline>data: 2'')] =
      butlast (split_nl (js ''data: 1\<newline>data: 2''))"
    by (rule complete_lines_ascii [OF ascii])
  then show ?thesis
    by (simp add: queryStream_ok [OF ok] stream_eval json_eval)
qed

text \<open>
  An error response whose body is not JSON, or that has no body: the message is
  \<open>HTTP <status>\<close>.
\<close>

lemma request_non_json_body:
  "snd (request (constructor (KeyString (js ''sk-1''))) [Lit (js ''/v1/files'')]
          \<lparr>http_method = None, headers = None, body = None\<rparr>
          (Resolves 503 (Body [Chunk (ascii ''<html>'')] Ends))) =
     Threw \<lparr>message = js ''HTTP 503'', status = Some 503, code = None, details = None\<rparr>
   \<and> snd (request (constructor (KeyString (js ''sk-1''))) [Lit (js ''/v1/files'')]
          \<lparr>http_method = None, headers = None, body = None\<rparr>
          (Resolves 503 NoBody)) =
     Threw \<lparr>message = js ''HTTP 503'', status = Some 503, code = None, details = None\<rparr>"
proof -
  have "\<forall>c\<in>set (js ''<html>''). c < 128"
    by (simp add: js_def)
  then have "utf8_decode (body_bytes [Chunk (ascii ''<html>'')]) = js ''<html>''"
    by (simp add: body_bytes_def utf8_decode_ascii)
  moreover have "JSON_parse (js ''<html>'') = None"
    by (simp add: json_eval)
  ultimately have "response_json (Body [Chunk (ascii ''<html>'')] Ends) = SyntaxErr"
    by simp
  moreover have "response_json NoBody = SyntaxErr"
    by (simp add: JSON_parse_def)
  ultimately show ?thesis
    by (simp add: request_def request_failure_def ok_def js_def del: response_json.simps)
qed

text \<open>
  An error response whose body is the JSON value \<open>null\<close>: reading \<open>error.error\<close> throws, and
  the \<open>catch\<close> block of \<open>request\<close> wraps the \<open>TypeError\<close> as it wraps a network failure,
  without the status.
\<close>

lemma request_null_body:
  "snd (request (constructor (KeyString (js ''sk-1''))) [Lit (js ''/v1/files'')]
          \<lparr>http_method = None, headers = None, body = None\<rparr>
          (Resolves 500 (Body [Chunk (ascii ''null'')] Ends))) =
     Threw \<lparr>message = js ''Cannot read properties of null (reading '' @ [39]
                        @ js ''error'' @ [39, 41],
            status = None, code = None,
            details = Some (Caught (null_read_error (js ''error'')))\<rparr>"
proof -
  have "\<forall>c\<in>set (js ''null''). c < 128"
    by (simp add: js_def)
  moreover have "JSON_parse (js ''null'') = Some JNull"
    by (simp add: json_eval)
  ultimately have "response_json (Body [Chunk (ascii ''null'')] Ends) = Parsed JNull"
    by (rule response_json_ascii)
  then show ?thesis
    by (simp add: request_def request_failure_def catch_request_def null_read_error_def
          ok_def js_def del: response_json.simps)
qed

subsection \<open>Claims\<close>

text \<open>
  C1. The events of a streaming query do not depend on how the response bytes were cut
  into chunks: two deliveries of the same bytes yield the same events and end the same
  way, wherever the cuts fall (inside a frame, inside the encoding of a character). In
  particular, however the bytes of the three lines \<open>data: {"delta":"a"}\<close>,
  \<open>data: {"delta":"b"}\<close>, \<open>data: {"done":true}\<close>, each ended by a newline, are
  delivered, \<open>queryStream\<close> yields exactly the three events in that order and completes.
\<close>

theorem queryStream_chunking:
  assumes "ok st"
  shows "(body_bytes evs = body_bytes evs' \<longrightarrow>
            snd (queryStream c datasetId question options (Resolves st (Body evs e))) =
            snd (queryStream c datasetId question options (Resolves st (Body evs' e))))
       \<and> (body_bytes evs =
            ascii ''data: {\"delta\":\"a\"}\<newline>data: {\"delta\":\"b\"}\<newline>data: {\"done\":true}\<newline>'' \<longrightarrow>
            snd (queryStream c datasetId question options (Resolves st (Body evs Ends))) =
            ([JObj [(js ''delta'', JStr (js ''a''))], JObj [(js ''delta'', JStr (js ''b''))],
              JObj [(js ''done'', JBool True)]], Returned ()))"
proof -
  let ?s = "''data: {\"delta\":\"a\"}\<newline>data: {\"delta\":\"b\"}\<newline>data: {\"done\":true}\<newline>''"
  have ascii: "\<forall>c\<in>set (js ?s). c < 128"
    by (simp add: js_def)
  have "lines_events (butlast (split_nl (js ?s))) =
      [JObj [(js ''delta'', JStr (js ''a''))], JObj [(js ''delta'', JStr (js ''b''))],
       JObj [(js ''done'', JBool True)]]"
    by (simp add: stream_eval json_eval)
  then show ?thesis
    using complete_lines_ascii [OF ascii, of evs]
    by (simp add: queryStream_ok [OF assms] complete_lines_def)
qed

theorem queryStream_chunking_witness:
  "ok 200
   \<and> body_bytes [Chunk (ascii ''data: {\"del''), Elapse,
                  Chunk (ascii ''ta\":\"a\"}\<newline>data: {\"delta\":\"b\"}\<newline>da''), Chunk [],
                  Chunk (ascii ''ta: {\"done\":true}\<newline>'')] =
     ascii ''data: {\"delta\":\"a\"}\<newline>data: {\"delta\":\"b\"}\<newline>data: {\"done\":true}\<newline>''
   \<and> snd (queryStream (constructor (KeyString (js ''sk-1''))) (js ''docs'') (js ''why?'')
            \<lparr>filters = None\<rparr>
            (Resolves 200 (Body
               [Chunk (ascii ''data: {\"del''), Elapse,
                Chunk (ascii ''ta\":\"a\"}\<newline>data: {\"delta\":\"b\"}\<newline>da''), Chunk [],
                Chunk (ascii ''ta: {\"done\":true}\<newline>'')] Ends))) =
     ([JObj [(js ''delta'', JStr (js ''a''))], JObj [(js ''delta'', JStr (js ''b''))],
       JObj [(js ''done'', JBool True)]], Returned ())"
proof -
  have ok: "ok 200"
    by (simp add: ok_def)
  have bytes: "body_bytes [Chunk (ascii ''data: {\"del''), Elapse,
                  Chunk (ascii ''ta\":\"a\"}\<newline>data: {\"delta\":\"b\"}\<newline>da''), Chunk [],
                  Chunk (ascii ''ta: {\"done\":true}\<newline>'')] =
     ascii ''data: {\"delta\":\"a\"}\<newline>data: {\"delta\":\"b\"}\<newline>data: {\"done\":true}\<newline>''"
    by (simp add: body_bytes_def ascii_def js_def)
  from queryStream_chunking [OF ok, THEN conjunct2, rule_format, OF bytes] ok bytes
  show ?thesis
    by blast
qed

text \<open>
  C4. A complete line that does not start with \<open>data: \<close>, or whose rest after the marker
  is not valid JSON, yields no event and does not end the sequence: the events are those of
  the lines before it followed by those of the lines after it, and the generator ends as
  the body does. So \<open>data: not-json\<close> (and noise such as an empty line or \<open>event: ping\<close>)
  between two valid frames leaves exactly the two valid events.
\<close>

theorem queryStream_skips_malformed:
  assumes "ok st"
    and "complete_lines evs = ls1 @ l # ls2"
    and "\<not> prefix (js ''data: '') l \<or> JSON_parse (drop 6 l) = None"
  shows "snd (queryStream c datasetId question options (Resolves st (Body evs e))) =
    (lines_events ls1 @ lines_events ls2, end_outcome e)"
  using assms(2) frame_events_skipped [OF assms(3)]
  by (simp add: queryStream_ok [OF assms(1)] lines_events_def)

theorem queryStream_skips_malformed_witness:
  "ok 200
   \<and> complete_lines
        [Chunk (ascii ''data: {\"delta\":\"a\"}\<newline>data: not''),
         Chunk (ascii ''-json\<newline>\<newline>event: ping\<newline>data: {\"done\":true}\<newline>'')] =
      [js ''data: {\"delta\":\"a\"}''] @ js ''data: not-json''
        # [js '''', js ''event: ping'', js ''data: {\"done\":true}'']
   \<and> JSON_parse (drop 6 (js ''data: not-json'')) = None
   \<and> snd (queryStream (constructor (KeyString (js ''sk-1''))) (js ''docs'') (js ''why?'')
            \<lparr>filters = None\<rparr>
            (Resolves 200 (Body
               [Chunk (ascii ''data: {\"delta\":\"a\"}\<newline>data: not''),
                Chunk (ascii ''-json\<newline>\<newline>event: ping\<newline>data: {\"done\":true}\<newline>'')]
               Ends))) =
     ([JObj [(js ''delta'', JStr (js ''a''))], JObj [(js ''done'', JBool True)]], Returned ())"
proof -
  let ?evs = "[Chunk (ascii ''data: {\"delta\":\"a\"}\<newline>data: not''),
         Chunk (ascii ''-json\<newline>\<newline>event: ping\<newline>data: {\"done\":true}\<newline>'')]"
  let ?s = "''data: {\"delta\":\"a\"}\<newline>data: not-json\<newline>\<newline>event: ping\<newline>data: {\"done\":true}\<newline>''"
  have ok: "ok 200"
    by (simp add: ok_def)
  have ascii: "\<forall>c\<in>set (js ?s). c < 128"
    by (simp add: js_def)
  have "body_bytes ?evs = ascii ?s"
    by (simp add: body_bytes_def ascii_append)
  then have "complete_lines ?evs = butlast (split_nl (js ?s))"
    by (rule complete_lines_ascii [OF ascii])
  then have lines: "complete_lines ?evs =
      [js ''data: {\"delta\":\"a\"}''] @ js ''data: not-json''
        # [js '''', js ''event: ping'', js ''data: {\"done\":true}'']"
    by (simp add: js_def)
  have unparsable: "JSON_parse (drop 6 (js ''data: not-json'')) = None"
    by (simp add: json_eval)
  then have bad: "\<not> prefix (js ''data: '') (js ''data: not-json'')
        \<or> JSON_parse (drop 6 (js ''data: not-json'')) = None"
    by simp
  have evs: "lines_events [js ''data: {\"delta\":\"a\"}''] @
      lines_events [js '''', js ''event: ping'', js ''data: {\"done\":true}''] =
      [JObj [(js ''delta'', JStr (js ''a''))], JObj [(js ''done'', JBool True)]]"
    by (simp add: stream_eval json_eval)
  from queryStream_skips_malformed [OF ok lines bad, of _ _ _ _ Ends] ok lines unparsable evs
  show ?thesis
    by simp
qed

text \<open>
  C8, as amended. The decoder yields what \<open>JSON.parse\<close> gives for the payload of each
  complete \<open>data: \<close> line and checks no shape: the events are exactly the parsed payloads
  of those lines. Hence every event is one of the shapes of \<open>StreamEvent\<close>, with exactly
  one variant field, whenever every parsable payload the server sends is.
\<close>

theorem queryStream_events_unchecked:
  assumes "ok st"
  shows "set (fst (snd (queryStream c datasetId question options (Resolves st (Body evs e))))) =
      {v. \<exists>l\<in>set (complete_lines evs).
            prefix (js ''data: '') l \<and> JSON_parse (drop 6 l) = Some v}
    \<and> ((\<forall>l\<in>set (complete_lines evs). \<forall>v.
            prefix (js ''data: '') l \<and> JSON_parse (drop 6 l) = Some v \<longrightarrow> is_StreamEvent v)
        \<longrightarrow> (\<forall>v\<in>set (fst (snd (queryStream c datasetId question options
                                  (Resolves st (Body evs e))))). is_StreamEvent v))"
  by (auto simp: queryStream_ok [OF assms] set_lines_events)

theorem queryStream_events_unchecked_witness:
  "ok 200
   \<and> complete_lines [Chunk (ascii ''data: {\"delta\":\"a\"}\<newline>data: {\"er''),
                      Chunk (ascii ''ror\":\"x\"}\<newline>'')] =
       [js ''data: {\"delta\":\"a\"}'', js ''data: {\"error\":\"x\"}'']
   \<and> JSON_parse (drop 6 (js ''data: {\"delta\":\"a\"}'')) =
       Some (JObj [(js ''delta'', JStr (js ''a''))])
   \<and> JSON_parse (drop 6 (js ''data: {\"error\":\"x\"}'')) =
       Some (JObj [(js ''error'', JStr (js ''x''))])
   \<and> fst (snd (queryStream (constructor (KeyString (js ''sk-1''))) (js ''docs'')
                 (js ''why?'') \<lparr>filters = None\<rparr>
                 (Resolves 200 (Body
                    [Chunk (ascii ''data: {\"delta\":\"a\"}\<newline>data: {\"er''),
                     Chunk (ascii ''ror\":\"x\"}\<newline>'')] Ends)))) =
       [JObj [(js ''delta'', JStr (js ''a''))], JObj [(js ''error'', JStr (js ''x''))]]
   \<and> is_StreamEvent (JObj [(js ''delta'', JStr (js ''a''))])
   \<and> is_StreamEvent (JObj [(js ''error'', JStr (js ''x''))])"
proof -
  let ?evs = "[Chunk (ascii ''data: {\"delta\":\"a\"}\<newline>data: {\"er''),
               Chunk (ascii ''ror\":\"x\"}\<newline>'')]"
  let ?s = "''data: {\"delta\":\"a\"}\<newline>data: {\"error\":\"x\"}\<newline>''"
  let ?run = "queryStream (constructor (KeyString (js ''sk-1''))) (js ''docs'')
                 (js ''why?'') \<lparr>filters = None\<rparr> (Resolves 200 (Body ?evs Ends))"
  have ok: "ok 200"
    by (simp add: ok_def)
  have ascii: "\<forall>c\<in>set (js ?s). c < 128"
    by (simp add: js_def)
  have "body_bytes ?evs = ascii ?s"
    by (simp add: body_bytes_def ascii_append)
  then have "complete_lines ?evs = butlast (split_nl (js ?s))"
    by (rule complete_lines_ascii [OF ascii])
  then have lines: "complete_lines ?evs =
      [js ''data: {\"delta\":\"a\"}'', js ''data: {\"error\":\"x\"}'']"
    by (simp add: js_def)
  have p1: "JSON_parse (drop 6 (js ''data: {\"delta\":\"a\"}'')) =
       Some (JObj [(js ''delta'', JStr (js ''a''))])"
    by (simp add: json_eval)
  have p2: "JSON_parse (drop 6 (js ''data: {\"error\":\"x\"}'')) =
       Some (JObj [(js ''error'', JStr (js ''x''))])"
    by (simp add: json_eval)
  have s1: "is_StreamEvent (JObj [(js ''delta'', JStr (js ''a''))])"
    by (simp add: js_def)
  have s2: "is_StreamEvent (JObj [(js ''error'', JStr (js ''x''))])"
    by (simp add: js_def)
  have shapes: "\<forall>l\<in>set (complete_lines ?evs). \<forall>v.
          prefix (js ''data: '') l \<and> JSON_parse (drop 6 l) = Some v \<longrightarrow> is_StreamEvent v"
    using p1 p2 s1 s2 by (auto simp: lines)
  have events: "fst (snd ?run) =
       [JObj [(js ''delta'', JStr (js ''a''))], JObj [(js ''error'', JStr (js ''x''))]]"
    using p1 p2 by (simp add: queryStream_ok [OF ok] lines stream_eval js_def)
  from queryStream_events_unchecked [OF ok, THEN conjunct2, THEN mp, OF shapes, of _ _ _ _ Ends]
  have "\<forall>v\<in>set (fst (snd ?run)). is_StreamEvent v" .
  then have "is_StreamEvent (JObj [(js ''delta'', JStr (js ''a''))])
      \<and> is_StreamEvent (JObj [(js ''error'', JStr (js ''x''))])"
    unfolding events by (simp del: is_StreamEvent.simps)
  with ok lines p1 p2 events show ?thesis
    by (simp del: is_StreamEvent.simps)
qed

text \<open>
  C8 as stated fails: a payload that parses to another value is yielded as it is. The lines
  \<open>data: {"foo":1}\<close> and \<open>data: 42\<close> yield \<open>{foo: 1}\<close> and \<open>42\<close>, neither of which has
  a variant field.
\<close>

theorem queryStream_events_unchecked_counterexample:
  "fst (snd (queryStream (constructor (KeyString (js ''sk-1''))) (js ''docs'') (js ''why?'')
            \<lparr>filters = None\<rparr>
            (Resolves 200 (Body [Chunk (ascii ''data: {\"foo\":1}\<newline>data: 42\<newline>'')] Ends)))) =
     [JObj [(js ''foo'', JNum 1)], JNum 42]
   \<and> \<not> is_StreamEvent (JObj [(js ''foo'', JNum 1)])
   \<and> \<not> is_StreamEvent (JNum 42)"
proof -
  let ?s = "''data: {\"foo\":1}\<newline>data: 42\<newline>''"
  have ok: "ok 200"
    by (simp add: ok_def)
  have ascii: "\<forall>c\<in>set (js ?s). c < 128"
    by (simp add: js_def)
  have "body_bytes [Chunk (ascii ?s)] = ascii ?s"
    by (simp add: body_bytes_def)
  then have "complete_lines [Chunk (ascii ?s)] = butlast (split_nl (js ?s))"
    by (rule complete_lines_ascii [OF ascii])
  then have "lines_events (complete_lines [Chunk (ascii ?s)]) =
      [JObj [(js ''foo'', JNum 1)], JNum 42]"
    by (simp add: stream_eval json_eval)
  moreover have "\<not> is_StreamEvent (JObj [(js ''foo'', JNum 1)])"
    by (simp add: js_def)
  ultimately show ?thesis
    by (simp add: queryStream_ok [OF ok])
qed




text \<open>
  C5, evaluated on the code. For the 402 response of the specification \<open>queryStream\<close>
  throws an error with the message and the status only, its code and details undefined,
  where \<open>query\<close>, through \<open>request\<close>, keeps both. For a 400 response whose body has a
  \<open>message\<close> field only, \<open>queryStream\<close> gives the message \<open>HTTP 400\<close> where \<open>query\<close> gives
  that of the field.
\<close>

theorem queryStream_failure_drops_fields:
  "snd (queryStream (constructor (KeyString (js ''sk-1''))) (js ''docs'') (js ''why?'')
          \<lparr>filters = None\<rparr>
          (Resolves 402 (Body [Chunk (ascii
             ''{\"error\":\"INSUFFICIENT_CREDITS\",\"details\":{\"required\":1,\"available\":0}}'')]
             Ends))) =
     ([], Threw \<lparr>message = js ''INSUFFICIENT_CREDITS'', status = Some 402,
                 code = None, details = None\<rparr>)
   \<and> snd (query (constructor (KeyString (js ''sk-1''))) (js ''docs'') (js ''why?'')
          \<lparr>filters = None\<rparr>
          (Resolves 402 (Body [Chunk (ascii
             ''{\"error\":\"INSUFFICIENT_CREDITS\",\"details\":{\"required\":1,\"available\":0}}'')]
             Ends))) =
     Threw \<lparr>message = js ''INSUFFICIENT_CREDITS'', status = Some 402,
            code = Some (JStr (js ''INSUFFICIENT_CREDITS'')),
            details = Some (FromBody
              (JObj [(js ''required'', JNum 1), (js ''available'', JNum 0)]))\<rparr>
   \<and> snd (queryStream (constructor (KeyString (js ''sk-1''))) (js ''docs'') (js ''why?'')
          \<lparr>filters = None\<rparr>
          (Resolves 400 (Body [Chunk (ascii ''{\"message\":\"Bad request\"}'')] Ends))) =
     ([], Threw \<lparr>message = js ''HTTP 400'', status = Some 400,
                 code = None, details = None\<rparr>)
   \<and> snd (query (constructor (KeyString (js ''sk-1''))) (js ''docs'') (js ''why?'')
          \<lparr>filters = None\<rparr>
          (Resolves 400 (Body [Chunk (ascii ''{\"message\":\"Bad request\"}'')] Ends))) =
     Threw \<lparr>message = js ''Bad request'', status = Some 400,
            code = None, details = None\<rparr>"
  by (simp add: queryStream_def query_def request_def insufficient_credits_body
        bad_request_body stream_failure_def request_failure_def ok_def js_def
        del: response_json.simps)

text \<open>
  C6. A call of \<open>request\<close>, and so of each of the nine methods built on it, that receives
  a response that is \<open>ok\<close>, with a body that is JSON, returns exactly the value that body
  parses to.
\<close>

theorem request_returns_payload:
  assumes "ok st"
    and "JSON_parse (utf8_decode (body_bytes evs)) = Some v"
  shows "snd (request c endpoint options (Resolves st (Body evs Ends))) = Returned v
    \<and> snd (upload c datasetId files uoptions (Resolves st (Body evs Ends))) = Returned v
    \<and> snd (listFiles c datasetId (Resolves st (Body evs Ends))) = Returned v
    \<and> snd (getFile c datasetId fileId (Resolves st (Body evs Ends))) = Returned v
    \<and> snd (deleteFile c datasetId fileId (Resolves st (Body evs Ends))) = Returned v
    \<and> snd (deleteDataset c datasetId (Resolves st (Body evs Ends))) = Returned v
    \<and> snd (deleteAll c (Resolves st (Body evs Ends))) = Returned v
    \<and> snd (search c datasetId question soptions (Resolves st (Body evs Ends))) = Returned v
    \<and> snd (query c datasetId question soptions (Resolves st (Body evs Ends))) = Returned v
    \<and> snd (createToken c datasetId toptions (Resolves st (Body evs Ends))) = Returned v"
proof -
  have "snd (request c ep opts (Resolves st (Body evs Ends))) = Returned v" for ep opts
    using assms by (simp add: request_def)
  then show ?thesis
    by (simp add: upload_def listFiles_def getFile_def deleteFile_def deleteDataset_def
          deleteAll_def search_def query_def createToken_def)
qed

theorem request_returns_payload_witness:
  "ok 200
   \<and> JSON_parse (utf8_decode (body_bytes
        [Chunk (ascii ''{\"success\":tr''), Chunk (ascii ''ue,\"deleted\":2}'')])) =
       Some (JObj [(js ''success'', JBool True), (js ''deleted'', JNum 2)])
   \<and> snd (deleteAll (constructor (KeyString (js ''sk-1'')))
            (Resolves 200 (Body
               [Chunk (ascii ''{\"success\":tr''), Chunk (ascii ''ue,\"deleted\":2}'')] Ends))) =
       Returned (JObj [(js ''success'', JBool True), (js ''deleted'', JNum 2)])"
proof -
  let ?s = "''{\"success\":true,\"deleted\":2}''"
  let ?evs = "[Chunk (ascii ''{\"success\":tr''), Chunk (ascii ''ue,\"deleted\":2}'')]"
  have ok: "ok 200"
    by (simp add: ok_def)
  have ascii: "\<forall>c\<in>set (js ?s). c < 128"
    by (simp add: js_def)
  have "body_bytes ?evs = ascii ?s"
    by (simp add: body_bytes_def ascii_append)
  moreover have "JSON_parse (js ?s) =
      Some (JObj [(js ''success'', JBool True), (js ''deleted'', JNum 2)])"
    by (simp add: json_eval)
  ultimately have parsed: "JSON_parse (utf8_decode (body_bytes ?evs)) =
       Some (JObj [(js ''success'', JBool True), (js ''deleted'', JNum 2)])"
    by (simp add: utf8_decode_ascii [OF ascii])
  have "snd (deleteAll (constructor (KeyString (js ''sk-1''))) (Resolves 200 (Body ?evs Ends))) =
      Returned (JObj [(js ''success'', JBool True), (js ''deleted'', JNum 2)])"
    using request_returns_payload [OF ok parsed] by blast
  then show ?thesis
    by (intro conjI ok parsed)
qed

text \<open>
  C3, as amended. The timer covers the wait for \<open>fetch\<close> only. When the configured
  duration elapses while \<open>fetch\<close> is pending, or \<open>fetch\<close> rejects with an abort failure,
  the call, streaming or not, fails with the timeout error \<open>Request timeout\<close> and not with
  a network error. Once \<open>fetch\<close> has resolved the timer is cleared: the duration elapsing
  while the body or the chunks of a stream are awaited changes nothing.
\<close>

theorem timeout_while_fetch_pending:
  "((x = TimerFirst \<or> (\<exists>t. x = Rejects t \<and> isAbortError t)) \<longrightarrow>
      snd (request c endpoint options x) = Threw timeout_error
      \<and> snd (queryStream c datasetId question soptions x) = ([], Threw timeout_error))
   \<and> request c endpoint options (Resolves st (Body evs e)) =
       request c endpoint options (Resolves st (Body (filter (\<lambda>ev. ev \<noteq> Elapse) evs) e))
   \<and> queryStream c datasetId question soptions (Resolves st (Body evs e)) =
       queryStream c datasetId question soptions
         (Resolves st (Body (filter (\<lambda>ev. ev \<noteq> Elapse) evs) e))"
proof (intro conjI impI)
  assume x: "x = TimerFirst \<or> (\<exists>t. x = Rejects t \<and> isAbortError t)"
  then show "snd (request c endpoint options x) = Threw timeout_error"
    by (auto simp: request_def catch_request_def isAbortError_abort_error)
  from x show "snd (queryStream c datasetId question soptions x) = ([], Threw timeout_error)"
    by (auto simp: queryStream_def catch_stream_def isAbortError_abort_error)
next
  show "request c endpoint options (Resolves st (Body evs e)) =
       request c endpoint options (Resolves st (Body (filter (\<lambda>ev. ev \<noteq> Elapse) evs) e))"
    by (simp add: request_def response_json_without_Elapse del: response_json.simps)
  show "queryStream c datasetId question soptions (Resolves st (Body evs e)) =
       queryStream c datasetId question soptions
         (Resolves st (Body (filter (\<lambda>ev. ev \<noteq> Elapse) evs) e))"
    by (simp add: queryStream_def response_json_without_Elapse read_loop_without_Elapse
          del: response_json.simps)
qed

theorem timeout_while_fetch_pending_witness:
  "isAbortError (JsError (js ''AbortError'') (js ''The user aborted a request.''))
   \<and> snd (request (constructor (KeyString (js ''sk-1''))) [Lit (js ''/v1/files'')]
            \<lparr>http_method = None, headers = None, body = None\<rparr>
            (Rejects (JsError (js ''AbortError'') (js ''The user aborted a request.'')))) =
       Threw \<lparr>message = js ''Request timeout'', status = None, code = None,
              details = None\<rparr>
   \<and> snd (queryStream (constructor (KeyString (js ''sk-1''))) (js ''docs'') (js ''why?'')
            \<lparr>filters = None\<rparr>
            (Rejects (JsError (js ''AbortError'') (js ''The user aborted a request.'')))) =
       ([], Threw \<lparr>message = js ''Request timeout'', status = None, code = None,
                   details = None\<rparr>)"
proof -
  let ?t = "JsError (js ''AbortError'') (js ''The user aborted a request.'')"
  have abort: "isAbortError ?t"
    by simp
  then have "Rejects ?t = TimerFirst \<or> (\<exists>t. Rejects ?t = Rejects t \<and> isAbortError t)"
    by blast
  from timeout_while_fetch_pending [THEN conjunct1, THEN mp, OF this] abort
  show ?thesis
    by (simp add: timeout_error_def)
qed

text \<open>
  C3 as stated fails: the duration elapses between two chunks of a stream, or before the
  body of a plain response arrives, and the call still completes normally.
\<close>

theorem timeout_after_response_counterexample:
  "elapses (Resolves 200 (Body [Chunk (ascii ''data: {\"delta\":\"a\"}\<newline>''), Elapse,
                               Chunk (ascii ''data: {\"done\":true}\<newline>'')] Ends))
   \<and> snd (queryStream (constructor (KeyString (js ''sk-1''))) (js ''docs'') (js ''why?'')
            \<lparr>filters = None\<rparr>
            (Resolves 200 (Body [Chunk (ascii ''data: {\"delta\":\"a\"}\<newline>''), Elapse,
                                Chunk (ascii ''data: {\"done\":true}\<newline>'')] Ends))) =
       ([JObj [(js ''delta'', JStr (js ''a''))], JObj [(js ''done'', JBool True)]], Returned ())
   \<and> elapses (Resolves 200 (Body [Elapse, Chunk (ascii ''{\"success\":true}'')] Ends))
   \<and> snd (deleteAll (constructor (KeyString (js ''sk-1'')))
            (Resolves 200 (Body [Elapse, Chunk (ascii ''{\"success\":true}'')] Ends))) =
       Returned (JObj [(js ''success'', JBool True)])"
proof -
  let ?evs = "[Chunk (ascii ''data: {\"delta\":\"a\"}\<newline>''), Elapse,
               Chunk (ascii ''data: {\"done\":true}\<newline>'')]"
  let ?s = "''data: {\"delta\":\"a\"}\<newline>data: {\"done\":true}\<newline>''"
  let ?r = "''{\"success\":true}''"
  have ok: "ok 200"
    by (simp add: ok_def)
  have ascii: "\<forall>c\<in>set (js ?s). c < 128"
    by (simp add: js_def)
  have "body_bytes ?evs = ascii ?s"
    by (simp add: body_bytes_def ascii_append)
  then have "complete_lines ?evs = butlast (split_nl (js ?s))"
    by (rule complete_lines_ascii [OF ascii])
  then have "lines_events (complete_lines ?evs) =
      [JObj [(js ''delta'', JStr (js ''a''))], JObj [(js ''done'', JBool True)]]"
    by (simp add: stream_eval json_eval)
  then have stream: "snd (queryStream (constructor (KeyString (js ''sk-1''))) (js ''docs'')
      (js ''why?'') \<lparr>filters = None\<rparr> (Resolves 200 (Body ?evs Ends))) =
      ([JObj [(js ''delta'', JStr (js ''a''))], JObj [(js ''done'', JBool True)]], Returned ())"
    by (simp add: queryStream_ok [OF ok])
  have "\<forall>c\<in>set (js ?r). c < 128"
    by (simp add: js_def)
  then have "utf8_decode (body_bytes [Elapse, Chunk (ascii ?r)]) = js ?r"
    by (simp add: body_bytes_def utf8_decode_ascii)
  moreover have "JSON_parse (js ?r) = Some (JObj [(js ''success'', JBool True)])"
    by (simp add: json_eval)
  ultimately have "JSON_parse (utf8_decode (body_bytes [Elapse, Chunk (ascii ?r)])) =
      Some (JObj [(js ''success'', JBool True)])"
    by simp
  then have plain: "snd (deleteAll (constructor (KeyString (js ''sk-1'')))
      (Resolves 200 (Body [Elapse, Chunk (ascii ?r)] Ends))) =
      Returned (JObj [(js ''success'', JBool True)])"
    by (simp add: deleteAll_def request_def ok)
  have e1: "elapses (Resolves 200 (Body ?evs Ends))"
    by simp
  have e2: "elapses (Resolves 200 (Body [Elapse, Chunk (ascii ?r)] Ends))"
    by simp
  show ?thesis
    by (intro conjI e1 e2 stream plain)
qed




text \<open>
  C9. \<open>upload\<close> with a single file makes the same call as \<open>upload\<close> with the array of
  that one file, and the file parts of the form, in the order of the files, all have the
  field name \<open>file\<close>.
\<close>

theorem upload_single_file:
  "upload c datasetId (OneFile file) options x = upload c datasetId (FileArray [file]) options x
   \<and> filter is_file_part (upload_form datasetId (OneFile file) options) = [(js ''file'', Blob file)]
   \<and> filter is_file_part (upload_form datasetId (FileArray fs) options) =
       map (\<lambda>f. (js ''file'', Blob f)) fs"
proof -
  have "filter is_file_part (map (\<lambda>f. (js ''file'', Blob f)) fs) =
      map (\<lambda>f. (js ''file'', Blob f)) fs" for fs :: "File list"
    by (induction fs) simp_all
  then show ?thesis
    by (simp add: upload_def upload_form_def split: option.splits)
qed


end
